theory Spec2Isabelle
  imports Main "HOL-Library.Word"
begin

section \<open>Data model\<close>

text \<open>
  A Python \<open>bytes\<close> value is a list of 8-bit words, a Python \<open>str\<close> a list of
  characters (one character per code point; every code point of the program is below 256).
\<close>

type_synonym byte = "8 word"
type_synonym bytes = "byte list"

text \<open>
  The exceptions the program can meet: \<open>serial.SerialException\<close>, raised by the port,
  and \<open>IndexError\<close>, raised by indexing a \<open>bytes\<close> value out of range. Each carries
  its message, which is what \<open>str(e)\<close> prints.
\<close>

datatype exn = SerialException string | IndexError string

fun str_exn :: "exn \<Rightarrow> string" where
  "str_exn (SerialException m) = m"
| "str_exn (IndexError m) = m"

text \<open>
  The world the functions act on: the serial port \<open>ser\<close> and the standard output.
  \<open>fault\<close> is the condition of the port: when it is \<open>Some m\<close>, \<open>ser.write\<close> and
  \<open>ser.in_waiting\<close> raise \<open>SerialException(m)\<close>. \<open>in_buf\<close> holds the bytes waiting in
  the input buffer (\<open>ser.in_waiting\<close> is its length), \<open>written\<close> the byte strings
  passed to successful \<open>ser.write\<close> calls, oldest first, and \<open>stdout\<close> the printed
  lines, oldest first.
\<close>

record world =
  fault :: "string option"
  in_buf :: bytes
  written :: "bytes list"
  stdout :: "string list"

definition print :: "string \<Rightarrow> world \<Rightarrow> world" where
  "print line w = w\<lparr>stdout := stdout w @ [line]\<rparr>"

section \<open>Formatting\<close>

text \<open>\<open>bytes.hex()\<close>: two lower-case hexadecimal digits per byte.\<close>

definition hex_digit :: "nat \<Rightarrow> char" where
  "hex_digit n = ''0123456789abcdef'' ! (n mod 16)"

definition hex_byte :: "byte \<Rightarrow> string" where
  "hex_byte b = [hex_digit (unat b div 16), hex_digit (unat b mod 16)]"

definition hex :: "bytes \<Rightarrow> string" where
  "hex bs = concat (map hex_byte bs)"

text \<open>\<open>str(n)\<close> for an element of a \<open>bytes\<close> value, an integer from 0 to 255.\<close>

definition dec_digit :: "nat \<Rightarrow> char" where
  "dec_digit n = ''0123456789'' ! (n mod 10)"

definition str_byte :: "byte \<Rightarrow> string" where
  "str_byte b = (let n = unat b in
     if n < 10 then [dec_digit n]
     else if n < 100 then [dec_digit (n div 10), dec_digit n]
     else [dec_digit (n div 100), dec_digit (n div 10), dec_digit n])"

section \<open>Indexing\<close>

text \<open>\<open>response[i]\<close> raises \<open>IndexError\<close> when \<open>i\<close> is not below the length.\<close>

definition index :: "bytes \<Rightarrow> nat \<Rightarrow> exn + byte" where
  "index bs i = (if i < length bs then Inr (bs ! i)
                 else Inl (IndexError ''index out of range''))"

text \<open>\<open>response.startswith(p)\<close>.\<close>

definition startswith :: "bytes \<Rightarrow> bytes \<Rightarrow> bool" where
  "startswith bs p = (take (length p) bs = p)"

section \<open>Port operations\<close>

definition send_command :: "bytes \<Rightarrow> world \<Rightarrow> world" where
  "send_command command w =
     (case fault w of
        None \<Rightarrow> print (''Command sent: '' @ hex command)
                  (w\<lparr>written := written w @ [command]\<rparr>)
      | Some e \<Rightarrow> print (''Error sending command: '' @ e) w)"

definition receive_response :: "world \<Rightarrow> bytes option \<times> world" where
  "receive_response w =
     (case fault w of
        None \<Rightarrow>
          if length (in_buf w) > 0 then
            (let response = in_buf w in
             (Some response,
              print (''Received response: '' @ hex response) (w\<lparr>in_buf := []\<rparr>)))
          else (None, w)
      | Some e \<Rightarrow> (None, print (''Error receiving response: '' @ e) w))"

section \<open>Tables\<close>

definition error_codes :: "(bytes \<times> string) list" where
  "error_codes =
     [([0x20], ''Motor Failure''),
      ([0x21], ''Checksum Error''),
      ([0x22], ''Bill Jam''),
      ([0x23], ''Bill Removed''),
      ([0x24], ''Stacker Open''),
      ([0x25], ''Sensor Problem''),
      ([0x27], ''Bill Fish''),
      ([0x28], ''Stacker Problem''),
      ([0x29], ''Bill Reject''),
      ([0x2A], ''Invalid Command'')]"

text \<open>\<open>error_codes.get(response[:1], "Unknown Error")\<close>.\<close>

definition error_message :: "bytes \<Rightarrow> string" where
  "error_message response =
     (case map_of error_codes (take 1 response) of
        Some m \<Rightarrow> m
      | None \<Rightarrow> ''Unknown Error'')"

text \<open>\<open>response[:1] in [b'\x20', b'\x22', b'\x28']\<close>.\<close>

definition requires_reset :: "bytes \<Rightarrow> bool" where
  "requires_reset response = (take 1 response \<in> set [[0x20], [0x22], [0x28]])"

text \<open>The labels of \<open>value_map\<close>; the letter before the final n is U+00EC.\<close>

definition nghin :: string where
  "nghin = '' ngh'' @ [CHR 0xEC] @ ''n''"

definition value_map :: "(int \<times> string) list" where
  "value_map =
     [(64, ''10'' @ nghin),
      (65, ''20'' @ nghin),
      (66, ''50'' @ nghin),
      (67, ''100'' @ nghin),
      (68, ''200'' @ nghin),
      (69, ''500'' @ nghin)]"

definition get_value_from_bill_type :: "int \<Rightarrow> string" where
  "get_value_from_bill_type bill_type =
     (case map_of value_map bill_type of
        Some v \<Rightarrow> v
      | None \<Rightarrow> ''Unknown'')"

section \<open>Protocol driver\<close>

definition handle_error_response :: "bytes \<Rightarrow> world \<Rightarrow> world" where
  "handle_error_response response w =
     (let w1 = print (''Error detected: '' @ error_message response) w;
          w2 = (if requires_reset response then
                  send_command [0x30]
                    (print ''Attempting to reset due to hardware issue...'' w1)
                else
                  print ''No specific recovery action defined for this error.'' w1)
      in send_command [0x3E] w2)"

text \<open>
  \<open>process_response\<close> returns the exception it raised, if any, and the world it left
  behind: what was printed and written before a raise stays printed and written.
\<close>

definition process_response :: "bytes \<Rightarrow> world \<Rightarrow> exn option \<times> world" where
  "process_response response0 w0 =
     (if response0 = [0x00] then
        (None, print ''Received idle status (00), no action needed.'' w0)
      else
        let (response, w) =
              (if startswith response0 [0x00] then
                 (drop 1 response0, print ''Detected leading 00 byte, removing it.'' w0)
               else (response0, w0))
        in
        if response \<noteq> [] then
          if response = [0x80, 0x8F] then
            (None, send_command [0x02]
                     (print ''Power-up acknowledgment request received.'' w))
          else if startswith response [0x81] then
            (let w1 = print (''Bill validation message received: '' @ hex response) w in
             case index response 2 of
               Inl e \<Rightarrow> (Some e, w1)
             | Inr bill_type \<Rightarrow>
                 (let v = get_value_from_bill_type (uint bill_type);
                      w2 = print (''Bill type: '' @ str_byte bill_type @ '', Value: '' @ v) w1
                  in (None, send_command [0x02] w2)))
          else if take 1 response \<in> set [[0x20], [0x21], [0x22], [0x28]] then
            (None, handle_error_response response w)
          else
            (None, print (''Unknown response: '' @ hex response) w)
        else
          (None, print ''Received empty or invalid response.'' w))"

definition check_status :: "world \<Rightarrow> world" where
  "check_status w =
     (let w1 = send_command [0x0C] w;
          (response, w2) = receive_response w1
      in case response of
           None \<Rightarrow> w2
         | Some r \<Rightarrow>
             if r \<noteq> [] then
               (case process_response r w2 of
                  (None, w3) \<Rightarrow> w3
                | (Some e, w3) \<Rightarrow> print (''Error while checking status: '' @ str_exn e) w3)
             else w2)"

section \<open>Classification\<close>

text \<open>
  The branch of \<open>process_response\<close> a response takes, named as the specification names
  the outcomes. \<open>strip_idle\<close> is the removal of the leading idle byte, \<open>match_response\<close>
  the chain of tests on what is left, \<open>classify\<close> the whole decision.
\<close>

datatype classified =
    Idle
  | PowerUpRequest
  | Escrow byte
  | ErrorEvent byte
  | Unknown bytes

definition strip_idle :: "bytes \<Rightarrow> bytes" where
  "strip_idle response = (if startswith response [0x00] then drop 1 response else response)"

definition match_response :: "bytes \<Rightarrow> exn + classified" where
  "match_response response =
     (if response \<noteq> [] then
        if response = [0x80, 0x8F] then Inr PowerUpRequest
        else if startswith response [0x81] then
          (case index response 2 of
             Inl e \<Rightarrow> Inl e
           | Inr bill_type \<Rightarrow> Inr (Escrow bill_type))
        else if take 1 response \<in> set [[0x20], [0x21], [0x22], [0x28]] then
          Inr (ErrorEvent (hd response))
        else Inr (Unknown response)
      else Inr (Unknown response))"

definition classify :: "bytes \<Rightarrow> exn + classified" where
  "classify response =
     (if response = [0x00] then Inr Idle else match_response (strip_idle response))"

text \<open>The commands each outcome leads \<open>process_response\<close> to send.\<close>

fun reaction :: "exn + classified \<Rightarrow> bytes list" where
  "reaction (Inl e) = []"
| "reaction (Inr Idle) = []"
| "reaction (Inr PowerUpRequest) = [[0x02]]"
| "reaction (Inr (Escrow b)) = [[0x02]]"
| "reaction (Inr (ErrorEvent c)) =
     (if requires_reset [c] then [[0x30], [0x3E]] else [[0x3E]])"
| "reaction (Inr (Unknown r)) = []"

text \<open>
  The part of \<open>process_response\<close> that follows the removal of the leading idle byte,
  as a function of the response and the world that reach it.
\<close>

definition dispatch :: "bytes \<Rightarrow> world \<Rightarrow> exn option \<times> world" where
  "dispatch response w =
     (if response \<noteq> [] then
          if response = [0x80, 0x8F] then
            (None, send_command [0x02]
                     (print ''Power-up acknowledgment request received.'' w))
          else if startswith response [0x81] then
            (let w1 = print (''Bill validation message received: '' @ hex response) w in
             case index response 2 of
               Inl e \<Rightarrow> (Some e, w1)
             | Inr bill_type \<Rightarrow>
                 (let v = get_value_from_bill_type (uint bill_type);
                      w2 = print (''Bill type: '' @ str_byte bill_type @ '', Value: '' @ v) w1
                  in (None, send_command [0x02] w2)))
          else if take 1 response \<in> set [[0x20], [0x21], [0x22], [0x28]] then
            (None, handle_error_response response w)
          else
            (None, print (''Unknown response: '' @ hex response) w)
        else
          (None, print ''Received empty or invalid response.'' w))"

text \<open>A working port with nothing waiting, nothing written and nothing printed.\<close>

definition world0 :: world where
  "world0 = \<lparr>fault = None, in_buf = [], written = [], stdout = []\<rparr>"

text \<open>
  The commands written between two worlds: what \<open>w'\<close> holds beyond the commands
  already written in \<open>w\<close>.
\<close>

definition emitted :: "world \<Rightarrow> world \<Rightarrow> bytes list" where
  "emitted w w' = drop (length (written w)) (written w')"

text \<open>
  One poll cycle of \<open>main\<close>'s loop in which the device's response \<open>r\<close> is waiting
  when \<open>check_status\<close> reads the port.
\<close>

definition cycle :: "bytes \<Rightarrow> world \<Rightarrow> world" where
  "cycle r w = check_status (w\<lparr>in_buf := r\<rparr>)"

section \<open>Basic facts\<close>

lemma process_response_unfold:
  "process_response r w =
     (if r = [0x00] then (None, print ''Received idle status (00), no action needed.'' w)
      else if startswith r [0x00]
        then dispatch (drop 1 r) (print ''Detected leading 00 byte, removing it.'' w)
      else dispatch r w)"
proof (cases "r = [0x00]")
  case True
  then show ?thesis by (simp only: process_response_def if_True simp_thms)
next
  case False
  show ?thesis
  proof (cases "startswith r [0x00]")
    case True
    with False show ?thesis
      by (simp only: process_response_def dispatch_def if_True if_False Let_def prod.case)
  next
    case False
    with \<open>r \<noteq> [0x00]\<close> show ?thesis
      by (simp only: process_response_def dispatch_def if_True if_False Let_def prod.case)
  qed
qed

lemma written_print [simp]: "written (print l w) = written w"
  by (simp add: print_def)

lemma fault_print [simp]: "fault (print l w) = fault w"
  by (simp add: print_def)

lemma in_buf_print [simp]: "in_buf (print l w) = in_buf w"
  by (simp add: print_def)

lemma written_send_command:
  "fault w = None \<Longrightarrow> written (send_command c w) = written w @ [c]"
  by (simp add: send_command_def)

lemma fault_send_command [simp]: "fault (send_command c w) = fault w"
  by (simp add: send_command_def split: option.splits)

lemma in_buf_send_command [simp]: "in_buf (send_command c w) = in_buf w"
  by (simp add: send_command_def split: option.splits)

lemma written_handle_error_response:
  "fault w = None \<Longrightarrow>
   written (handle_error_response r w) =
     written w @ (if requires_reset r then [[0x30], [0x3E]] else [[0x3E]])"
  by (simp add: handle_error_response_def Let_def written_send_command)

lemma fault_handle_error_response [simp]:
  "fault (handle_error_response r w) = fault w"
  by (simp add: handle_error_response_def Let_def)

lemma requires_reset_hd: "r \<noteq> [] \<Longrightarrow> requires_reset [hd r] = requires_reset r"
  by (cases r) (simp_all add: requires_reset_def)

lemma dispatch_written:
  assumes "fault w = None"
  shows "written (snd (dispatch r w)) = written w @ reaction (match_response r)"
proof (cases "r = []")
  case True
  then show ?thesis by (simp add: dispatch_def match_response_def)
next
  case ne: False
  show ?thesis
  proof (cases "r = [0x80, 0x8F]")
    case True
    then show ?thesis using assms
      by (simp add: dispatch_def match_response_def written_send_command)
  next
    case npu: False
    show ?thesis
    proof (cases "startswith r [0x81]")
      case True
      then show ?thesis using assms ne npu
        by (simp add: dispatch_def match_response_def index_def Let_def written_send_command)
    next
      case nes: False
      show ?thesis
      proof (cases "take 1 r \<in> set [[0x20], [0x21], [0x22], [0x28]]")
        case True
        then show ?thesis using assms ne npu nes
          by (simp add: dispatch_def match_response_def written_handle_error_response
              requires_reset_hd)
      next
        case False
        then show ?thesis using assms ne npu nes
          by (simp add: dispatch_def match_response_def)
      qed
    qed
  qed
qed

lemma dispatch_raises:
  "fst (dispatch r w) = (case match_response r of Inl e \<Rightarrow> Some e | Inr c \<Rightarrow> None)"
  by (simp add: dispatch_def match_response_def index_def Let_def)

lemma fault_dispatch [simp]: "fault (snd (dispatch r w)) = fault w"
  by (simp add: dispatch_def index_def Let_def)

lemma in_buf_handle_error_response [simp]:
  "in_buf (handle_error_response r w) = in_buf w"
  by (simp add: handle_error_response_def Let_def)

lemma in_buf_dispatch [simp]: "in_buf (snd (dispatch r w)) = in_buf w"
  by (simp add: dispatch_def index_def Let_def)

lemma process_response_written:
  "fault w = None \<Longrightarrow>
   written (snd (process_response r w)) = written w @ reaction (classify r)"
  by (simp add: process_response_unfold classify_def strip_idle_def dispatch_written)

lemma process_response_raises:
  "fst (process_response r w) = (case classify r of Inl e \<Rightarrow> Some e | Inr c \<Rightarrow> None)"
  by (simp add: process_response_unfold classify_def strip_idle_def dispatch_raises)

lemma fault_process_response [simp]: "fault (snd (process_response r w)) = fault w"
  by (simp add: process_response_unfold)

lemma in_buf_process_response [simp]: "in_buf (snd (process_response r w)) = in_buf w"
  by (simp add: process_response_unfold)

lemma check_status_unfold:
  assumes "fault w = None" and "in_buf w \<noteq> []"
  shows "check_status w =
     (case process_response (in_buf w)
             (print (''Received response: '' @ hex (in_buf w))
                (send_command [0x0C] w\<lparr>in_buf := []\<rparr>)) of
        (None, w3) \<Rightarrow> w3
      | (Some e, w3) \<Rightarrow> print (''Error while checking status: '' @ str_exn e) w3)"
  using assms by (simp add: check_status_def receive_response_def Let_def)

lemma check_status_written:
  assumes "fault w = None" and "in_buf w \<noteq> []"
  shows "written (check_status w) = written w @ [[0x0C]] @ reaction (classify (in_buf w))"
proof -
  let ?w2 = "print (''Received response: '' @ hex (in_buf w))
               (send_command [0x0C] w\<lparr>in_buf := []\<rparr>)"
  obtain x w3 where p: "process_response (in_buf w) ?w2 = (x, w3)"
    by (cases "process_response (in_buf w) ?w2")
  have f: "fault ?w2 = None" using assms(1) by simp
  have "written w3 = written ?w2 @ reaction (classify (in_buf w))"
    using process_response_written [OF f, of "in_buf w"] p by simp
  moreover have "written ?w2 = written w @ [[0x0C]]"
    using assms(1) by (simp add: written_send_command)
  ultimately show ?thesis
    using p by (simp add: check_status_unfold [OF assms] split: option.splits)
qed

lemma check_status_quiet:
  assumes "fault w = None" and "in_buf w = []"
  shows "check_status w = send_command [0x0C] w"
  using assms by (simp add: check_status_def receive_response_def Let_def)

lemma fault_check_status [simp]: "fault (check_status w) = fault w"
proof (cases "fault w")
  case None
  show ?thesis
  proof (cases "in_buf w = []")
    case True
    with None show ?thesis by (simp add: check_status_quiet)
  next
    case False
    let ?w2 = "print (''Received response: '' @ hex (in_buf w))
                 (send_command [0x0C] w\<lparr>in_buf := []\<rparr>)"
    obtain x w3 where p: "process_response (in_buf w) ?w2 = (x, w3)"
      by (cases "process_response (in_buf w) ?w2")
    have "fault w3 = fault (snd (process_response (in_buf w) ?w2))"
      by (simp only: p snd_conv)
    also have "\<dots> = fault w" by simp
    finally have "fault w3 = fault w" .
    then show ?thesis
      using p by (simp add: check_status_unfold [OF None False] split: option.splits)
  qed
next
  case (Some m)
  then show ?thesis by (simp add: check_status_def receive_response_def Let_def)
qed

lemma requires_reset_Cons:
  "requires_reset (c # rest) = (c = 0x20 \<or> c = 0x22 \<or> c = 0x28)"
  by (simp add: requires_reset_def)

lemma startswith_Cons [simp]: "startswith (c # rest) [b] = (c = b)"
  by (simp add: startswith_def)

lemma startswith_Nil [simp]: "startswith [] [b] = False"
  by (simp add: startswith_def)

lemma cycle_written:
  assumes "fault w = None" and "r \<noteq> []"
  shows "written (cycle r w) = written w @ [[0x0C]] @ reaction (classify r)"
  using assms check_status_written [of "w\<lparr>in_buf := r\<rparr>"] by (simp add: cycle_def)

lemma fault_cycle [simp]: "fault (cycle r w) = fault w"
  by (simp add: cycle_def)

lemma classify_idle: "classify [0x00] = Inr Idle"
  by (simp add: classify_def)

lemma classify_power_up: "classify [0x80, 0x8F] = Inr PowerUpRequest"
  by (simp add: classify_def match_response_def strip_idle_def)

lemma classify_escrow_example: "classify [0x81, 0x05, 0x42] = Inr (Escrow 0x42)"
  by (simp add: classify_def match_response_def strip_idle_def index_def)

lemma classify_motor_failure: "classify [0x20] = Inr (ErrorEvent 0x20)"
  by (simp add: classify_def match_response_def strip_idle_def)

lemma match_error_code:
  "e \<in> {0x20, 0x21, 0x22, 0x28} \<Longrightarrow> match_response (e # rest) = Inr (ErrorEvent e)"
  by (auto simp add: match_response_def)

lemma match_other_code:
  "d \<in> {0x23, 0x24, 0x25, 0x27, 0x29, 0x2A} \<Longrightarrow>
   match_response (d # rest) = Inr (Unknown (d # rest))"
  by (auto simp add: match_response_def)

lemma dispatch_error_code:
  "e \<in> {0x20, 0x21, 0x22, 0x28} \<Longrightarrow>
   dispatch (e # rest) w = (None, handle_error_response (e # rest) w)"
  by (auto simp add: dispatch_def)

lemma dispatch_other_code:
  "d \<in> {0x23, 0x24, 0x25, 0x27, 0x29, 0x2A} \<Longrightarrow>
   dispatch (d # rest) w = (None, print (''Unknown response: '' @ hex (d # rest)) w)"
  by (auto simp add: dispatch_def)

lemma process_response_no_idle:
  "c \<noteq> 0x00 \<Longrightarrow> process_response (c # rest) w = dispatch (c # rest) w"
  by (simp add: process_response_unfold)

lemma classify_no_idle:
  "c \<noteq> 0x00 \<Longrightarrow> classify (c # rest) = match_response (c # rest)"
  by (simp add: classify_def strip_idle_def)

lemma match_not_error:
  assumes "a \<notin> {0x20, 0x21, 0x22, 0x28}"
  shows "match_response (a # as) \<noteq> Inr (ErrorEvent c)"
proof (cases "a # as = [0x80, 0x8F]")
  case True
  then show ?thesis by (simp add: match_response_def)
next
  case npu: False
  show ?thesis
  proof (cases "a = 0x81")
    case True
    then show ?thesis
      by (cases "2 < length (a # as)") (simp_all add: match_response_def index_def)
  next
    case False
    then show ?thesis using assms npu
      by (simp add: match_response_def)
  qed
qed

lemma match_error_iff:
  "(match_response r = Inr (ErrorEvent c))
     = (r \<noteq> [] \<and> hd r = c \<and> (c = 0x20 \<or> c = 0x21 \<or> c = 0x22 \<or> c = 0x28))"
proof (cases r)
  case Nil
  then show ?thesis by (simp add: match_response_def)
next
  case (Cons a as)
  show ?thesis
  proof (cases "a \<in> {0x20, 0x21, 0x22, 0x28}")
    case True
    from match_error_code [OF True, of as] True Cons show ?thesis by auto
  next
    case False
    from match_not_error [OF False, of as c] False Cons show ?thesis by auto
  qed
qed

lemma get_value_unmapped:
  "b \<notin> {64, 65, 66, 67, 68, 69} \<Longrightarrow> get_value_from_bill_type b = ''Unknown''"
  by (simp add: get_value_from_bill_type_def value_map_def)

lemma error_message_Cons:
  "error_message (c # rest) =
     (if c = 0x20 then ''Motor Failure''
      else if c = 0x21 then ''Checksum Error''
      else if c = 0x22 then ''Bill Jam''
      else if c = 0x23 then ''Bill Removed''
      else if c = 0x24 then ''Stacker Open''
      else if c = 0x25 then ''Sensor Problem''
      else if c = 0x27 then ''Bill Fish''
      else if c = 0x28 then ''Stacker Problem''
      else if c = 0x29 then ''Bill Reject''
      else if c = 0x2A then ''Invalid Command''
      else ''Unknown Error'')"
  by (simp add: error_message_def error_codes_def)

lemma error_message_known:
  assumes "c \<in> {0x20, 0x21, 0x22, 0x23, 0x24, 0x25, 0x27, 0x28, 0x29, 0x2A}"
  shows "error_message (c # rest) \<noteq> ''Unknown Error''"
  using assms by (auto simp add: error_message_Cons)

lemma error_message_unknown:
  assumes "d \<notin> {0x20, 0x21, 0x22, 0x23, 0x24, 0x25, 0x27, 0x28, 0x29, 0x2A}"
  shows "error_message (d # rest) = ''Unknown Error''"
  using assms by (simp add: error_message_Cons)

lemma hex_poll: "hex [0x0C] = ''0c''"
  by (simp add: hex_def hex_byte_def hex_digit_def)

lemma strip_idle_empty:
  assumes "r \<noteq> [0x00]" and "strip_idle r = []"
  shows "r = []"
proof (cases r)
  case Nil
  then show ?thesis .
next
  case (Cons a as)
  with assms show ?thesis
    by (cases "a = 0x00") (simp_all add: strip_idle_def)
qed

lemma process_response_empty:
  "process_response [] w = (None, print ''Received empty or invalid response.'' w)"
  by (simp add: process_response_unfold dispatch_def)

lemma classify_empty: "classify [] = Inr (Unknown [])"
  by (simp add: classify_def strip_idle_def match_response_def)

lemma escrow_shape:
  assumes "3 \<le> length r" and "hd r = 0x81"
  obtains b c rest where "r = 0x81 # b # c # rest"
proof -
  from assms(1) obtain a r1 where 1: "r = a # r1" by (cases r) auto
  with assms(1) obtain b r2 where 2: "r1 = b # r2" by (cases r1) auto
  with 1 assms(1) obtain c r3 where 3: "r2 = c # r3" by (cases r2) auto
  from 1 assms(2) have "a = 0x81" by simp
  with 1 2 3 that show ?thesis by simp
qed

lemma dispatch_escrow:
  "dispatch (0x81 # b # c # rest) w =
     (None, send_command [0x02]
        (print (''Bill type: '' @ str_byte c @ '', Value: ''
                  @ get_value_from_bill_type (uint c))
           (print (''Bill validation message received: '' @ hex (0x81 # b # c # rest)) w)))"
  by (simp add: dispatch_def index_def Let_def)

lemma match_escrow: "match_response (0x81 # b # c # rest) = Inr (Escrow c)"
  by (simp add: match_response_def index_def)

lemma match_not_idle: "match_response r \<noteq> Inr Idle"
proof (cases "r = []")
  case True
  then show ?thesis by (simp add: match_response_def)
next
  case ne: False
  show ?thesis
  proof (cases "r = [0x80, 0x8F]")
    case True
    then show ?thesis by (simp add: match_response_def)
  next
    case npu: False
    show ?thesis
    proof (cases "startswith r [0x81]")
      case True
      with ne npu show ?thesis
        by (cases "2 < length r") (simp_all add: match_response_def index_def)
    next
      case False
      with ne npu show ?thesis
        by (cases "take 1 r \<in> set [[0x20], [0x21], [0x22], [0x28]]")
           (simp_all add: match_response_def)
    qed
  qed
qed

lemma classify_idle_iff: "(classify r = Inr Idle) = (r = [0x00])"
  by (simp add: classify_def match_not_idle)

text \<open>
  The decision raises exactly on an escrow frame of fewer than three bytes; every other
  response is given one of the five outcomes.
\<close>

lemma match_raises_iff:
  "(\<exists>e. match_response r = Inl e) = (startswith r [0x81] \<and> length r < 3)"
proof (cases "r = []")
  case True
  then show ?thesis by (simp add: match_response_def)
next
  case ne: False
  show ?thesis
  proof (cases "r = [0x80, 0x8F]")
    case True
    then show ?thesis by (simp add: match_response_def)
  next
    case npu: False
    show ?thesis
    proof (cases "startswith r [0x81]")
      case True
      with ne npu show ?thesis
        by (cases "2 < length r") (simp_all add: match_response_def index_def)
    next
      case False
      with ne npu show ?thesis
        by (cases "take 1 r \<in> set [[0x20], [0x21], [0x22], [0x28]]")
           (simp_all add: match_response_def)
    qed
  qed
qed

lemma classify_raises_iff:
  "(\<exists>e. classify r = Inl e)
     = (r \<noteq> [0x00] \<and> startswith (strip_idle r) [0x81] \<and> length (strip_idle r) < 3)"
  by (simp add: classify_def match_raises_iff)

lemma reaction_enable_iff:
  "([0x3E] \<in> set (reaction x)) = (\<exists>c. x = Inr (ErrorEvent c))"
proof (cases x)
  case (Inl e)
  then show ?thesis by simp
next
  case (Inr k)
  then show ?thesis by (cases k) simp_all
qed

lemma match_error_ex_iff:
  "(\<exists>c. match_response n = Inr (ErrorEvent c))
     = (n \<noteq> [] \<and> hd n \<in> {0x20, 0x21, 0x22, 0x28})"
  by (simp add: match_error_iff)

lemma classify_error_ex_iff:
  "(\<exists>c. classify r = Inr (ErrorEvent c))
     = (r \<noteq> [0x00] \<and> strip_idle r \<noteq> []
        \<and> hd (strip_idle r) \<in> {0x20, 0x21, 0x22, 0x28})"
proof (cases "r = [0x00]")
  case True
  then show ?thesis by (simp add: classify_def)
next
  case False
  then have "classify r = match_response (strip_idle r)" by (simp add: classify_def)
  with False match_error_ex_iff [of "strip_idle r"] show ?thesis by simp
qed

lemma dispatch_recovery_iff:
  assumes "fault v = None"
  shows "(dispatch n v = (None, handle_error_response n v))
           = (n \<noteq> [] \<and> hd n \<in> {0x20, 0x21, 0x22, 0x28})"
proof (cases "n \<noteq> [] \<and> hd n \<in> {0x20, 0x21, 0x22, 0x28}")
  case True
  then obtain a as where n: "n = a # as" and a: "a \<in> {0x20, 0x21, 0x22, 0x28}"
    by (cases n) auto
  from dispatch_error_code [OF a, of as v] n True show ?thesis by simp
next
  case False
  then have "\<not> (\<exists>c. match_response n = Inr (ErrorEvent c))"
    by (simp only: match_error_ex_iff not_False_eq_True)
  then have no: "[0x3E] \<notin> set (reaction (match_response n))"
    by (simp only: reaction_enable_iff not_False_eq_True)
  have yes: "[0x3E :: byte] \<in> set (if requires_reset n then [[0x30], [0x3E]] else [[0x3E]])"
    by simp
  have "dispatch n v \<noteq> (None, handle_error_response n v)"
  proof
    assume eq: "dispatch n v = (None, handle_error_response n v)"
    have "written (snd (dispatch n v)) = written (handle_error_response n v)"
      by (simp only: eq snd_conv)
    then have "written v @ reaction (match_response n)
                 = written v @ (if requires_reset n then [[0x30], [0x3E]] else [[0x3E]])"
      by (simp only: dispatch_written [OF assms] written_handle_error_response [OF assms])
    then have "reaction (match_response n)
                 = (if requires_reset n then [[0x30], [0x3E]] else [[0x3E]])"
      by (simp only: same_append_eq)
    with no yes show False by simp
  qed
  with False show ?thesis by (simp only: simp_thms)
qed

lemma process_response_strip:
  assumes "r \<noteq> [0x00]"
  shows "process_response r v =
           dispatch (strip_idle r)
             (if startswith r [0x00] then print ''Detected leading 00 byte, removing it.'' v
              else v)"
  using assms by (simp add: process_response_unfold strip_idle_def)

lemma process_response_recovery_iff:
  assumes "fault v = None"
  shows "(process_response r v =
            (None, handle_error_response (strip_idle r)
                     (if startswith r [0x00]
                      then print ''Detected leading 00 byte, removing it.'' v else v)))
           = (r \<noteq> [0x00] \<and> strip_idle r \<noteq> []
              \<and> hd (strip_idle r) \<in> {0x20, 0x21, 0x22, 0x28})"
proof (cases "r = [0x00]")
  case True
  have "written (snd (process_response [0x00] v)) = written v"
    by (simp add: process_response_unfold)
  moreover have "written (handle_error_response (strip_idle [0x00])
                   (print ''Detected leading 00 byte, removing it.'' v)) = written v @ [[0x3E]]"
    using assms by (simp add: written_handle_error_response strip_idle_def requires_reset_def)
  ultimately have "process_response [0x00] v \<noteq>
      (None, handle_error_response (strip_idle [0x00])
               (print ''Detected leading 00 byte, removing it.'' v))"
    by (metis append_self_conv list.distinct(1) snd_conv)
  with True show ?thesis by simp
next
  case False
  let ?v = "if startswith r [0x00] then print ''Detected leading 00 byte, removing it.'' v
            else v"
  have f: "fault ?v = None" using assms by simp
  from process_response_strip [OF False, of v] dispatch_recovery_iff [OF f, of "strip_idle r"]
    False
  show ?thesis by simp
qed

lemma emitted_process_response:
  assumes "fault v = None"
  shows "emitted v (snd (process_response r v)) = reaction (classify r)"
  by (simp add: emitted_def process_response_written [OF assms])

lemma process_response_enable_iff:
  assumes "fault v = None"
  shows "([0x3E] \<in> set (emitted v (snd (process_response r v))))
           = (r \<noteq> [0x00] \<and> strip_idle r \<noteq> []
              \<and> hd (strip_idle r) \<in> {0x20, 0x21, 0x22, 0x28})"
  by (simp only: emitted_process_response [OF assms] reaction_enable_iff classify_error_ex_iff)

section \<open>Claims\<close>

text \<open>
  Claim C1. Classification is meant to be total and never to raise, an escrow frame
  shorter than three bytes being classified as Unknown. On the response \<open>81\<close> the
  code reads \<open>response[2]\<close> without a length test: the decision raises
  \<open>IndexError\<close> after printing the bill validation line, \<open>process_response\<close>
  passes the exception on, and \<open>check_status\<close> reports it as an error while
  checking status. Nothing but the poll command is written.
\<close>

theorem short_escrow_raises:
  "classify [0x81] = Inl (IndexError ''index out of range'')
   \<and> process_response [0x81] w =
       (Some (IndexError ''index out of range''),
        print ''Bill validation message received: 81'' w)
   \<and> check_status (world0\<lparr>in_buf := [0x81]\<rparr>) =
       world0\<lparr>written := [[0x0C]],
              stdout := [''Command sent: 0c'', ''Received response: 81'',
                         ''Bill validation message received: 81'',
                         ''Error while checking status: index out of range'']\<rparr>"
  apply (intro conjI)
    apply (simp add: classify_def match_response_def strip_idle_def startswith_def index_def)
   apply (simp add: process_response_unfold dispatch_def startswith_def index_def hex_def hex_byte_def hex_digit_def)
  apply (simp add: check_status_def receive_response_def world0_def send_command_def print_def process_response_unfold dispatch_def startswith_def index_def hex_def hex_byte_def hex_digit_def)
  done

text \<open>
  Claim C2. On a working port the recovery procedure writes, after what was already
  written, Reset then Enable when the error code is 0x20, 0x22 or 0x28, and Enable
  alone for every other code: at most one Reset, exactly one Enable, Enable last, and a
  Reset exactly for those three codes. So 0x22 gives Reset, Enable and 0x21 gives
  Enable.
\<close>
theorem recovery_sequence:
  assumes "fault w = None"
  shows "written (handle_error_response (c # rest) w) =
           written w @ (if c \<in> {0x20, 0x22, 0x28} then [[0x30], [0x3E]] else [[0x3E]])
         \<and> written (handle_error_response (c # rest) w) =
             written w @ emitted w (handle_error_response (c # rest) w)
         \<and> count_list (emitted w (handle_error_response (c # rest) w)) [0x30] \<le> 1
         \<and> count_list (emitted w (handle_error_response (c # rest) w)) [0x3E] = 1
         \<and> last (emitted w (handle_error_response (c # rest) w)) = [0x3E]
         \<and> ([0x30] \<in> set (emitted w (handle_error_response (c # rest) w)))
             = (c \<in> {0x20, 0x22, 0x28})"
  using assms
  by (simp add: written_handle_error_response requires_reset_Cons emitted_def)

theorem recovery_sequence_witness:
  "fault world0 = None
   \<and> written (handle_error_response [0x22] world0) = [[0x30], [0x3E]]
   \<and> written (handle_error_response [0x21] world0) = [[0x3E]]"
  using recovery_sequence [of world0 "0x22" "[]"] recovery_sequence [of world0 "0x21" "[]"]
  by (simp add: world0_def)

text \<open>
  Claim C3. The response \<open>00\<close> is Idle and \<open>process_response\<close> only prints a line
  for it. A response that begins with 0x00 and has more bytes loses exactly that one
  byte, and the rest is matched as it stands; \<open>00 80 8F\<close> is a power-up request and
  Acknowledge (0x02) is written for it.
\<close>
theorem idle_normalization:
  assumes "fault w = None" and "rest \<noteq> []"
  shows "classify [0x00] = Inr Idle
         \<and> process_response [0x00] w =
             (None, print ''Received idle status (00), no action needed.'' w)
         \<and> strip_idle (0x00 # rest) = rest
         \<and> classify (0x00 # rest) = match_response rest
         \<and> process_response (0x00 # rest) w =
             dispatch rest (print ''Detected leading 00 byte, removing it.'' w)
         \<and> classify [0x00, 0x80, 0x8F] = Inr PowerUpRequest
         \<and> written (snd (process_response [0x00, 0x80, 0x8F] w)) = written w @ [[0x02]]"
proof -
  have "classify [0x00, 0x80, 0x8F] = Inr PowerUpRequest"
    by (simp add: classify_def match_response_def strip_idle_def)
  moreover from this have
    "written (snd (process_response [0x00, 0x80, 0x8F] w)) = written w @ [[0x02]]"
    using process_response_written [OF assms(1), of "[0x00, 0x80, 0x8F]"] by simp
  ultimately show ?thesis
    using assms(2) by (simp add: classify_def strip_idle_def process_response_unfold)
qed

theorem idle_normalization_witness:
  "fault world0 = None \<and> [0x80, 0x8F] \<noteq> ([] :: bytes)
   \<and> classify [0x00, 0x80, 0x8F] = match_response [0x80, 0x8F]
   \<and> written (snd (process_response [0x00, 0x80, 0x8F] world0)) = [[0x02]]"
proof -
  have h: "fault world0 = None" by (simp add: world0_def)
  have n: "[0x80, 0x8F] \<noteq> ([] :: bytes)" by simp
  have e: "written world0 = []" by (simp add: world0_def)
  note t = idle_normalization [OF h n]
  from t have a: "classify [0x00, 0x80, 0x8F] = match_response [0x80, 0x8F]"
    by (elim conjE) assumption
  from t have b: "written (snd (process_response [0x00, 0x80, 0x8F] world0))
                    = written world0 @ [[0x02]]"
    by (elim conjE) assumption
  show ?thesis using h a b e by simp
qed

text \<open>
  Claim C4. On a working port each poll cycle writes Poll (0x0C) first; with the
  responses \<open>00\<close>, \<open>80 8F\<close>, \<open>81 05 42\<close> and \<open>20\<close> the commands that follow the poll
  are none, 0x02, 0x02, and 0x30 then 0x3E, cycle by cycle and over the four cycles run
  one after the other.
\<close>
theorem end_to_end_commands:
  assumes "fault w = None"
  shows "written (cycle [0x00] w) = written w @ [[0x0C]]
         \<and> written (cycle [0x80, 0x8F] w) = written w @ [[0x0C], [0x02]]
         \<and> written (cycle [0x81, 0x05, 0x42] w) = written w @ [[0x0C], [0x02]]
         \<and> written (cycle [0x20] w) = written w @ [[0x0C], [0x30], [0x3E]]
         \<and> written (cycle [0x20] (cycle [0x81, 0x05, 0x42] (cycle [0x80, 0x8F] (cycle [0x00] w))))
             = written w @ [[0x0C]] @ [[0x0C], [0x02]] @ [[0x0C], [0x02]]
                 @ [[0x0C], [0x30], [0x3E]]"
  using assms
  by (simp add: cycle_written classify_idle classify_power_up classify_escrow_example
      classify_motor_failure requires_reset_Cons)

theorem end_to_end_commands_witness:
  "fault world0 = None
   \<and> written (cycle [0x20] (cycle [0x81, 0x05, 0x42] (cycle [0x80, 0x8F] (cycle [0x00] world0))))
       = [[0x0C], [0x0C], [0x02], [0x0C], [0x02], [0x0C], [0x30], [0x3E]]"
  using end_to_end_commands [of world0]
  by (simp add: world0_def)

text \<open>
  Claim C5. The response \<open>81 00 41\<close> is an escrow event whose bill-type code is the
  third byte, 0x41; the denomination table maps 0x41 (65) to the label for twenty
  thousand, and every code outside 64..69, such as 0xFF, to \<open>Unknown\<close>. The line
  \<open>process_response\<close> prints for this response carries both the code and the label.
\<close>

theorem escrow_extraction:
  assumes "b \<notin> {64, 65, 66, 67, 68, 69}"
  shows "classify [0x81, 0x00, 0x41] = Inr (Escrow 0x41)
         \<and> index [0x81, 0x00, 0x41] 2 = Inr 0x41
         \<and> get_value_from_bill_type (uint (0x41 :: byte)) = ''20 ngh'' @ [CHR 0xEC] @ ''n''
         \<and> get_value_from_bill_type 0xFF = ''Unknown''
         \<and> get_value_from_bill_type b = ''Unknown''
         \<and> process_response [0x81, 0x00, 0x41] w =
             (None, send_command [0x02]
                (print (''Bill type: 65, Value: 20 ngh'' @ [CHR 0xEC] @ ''n'')
                   (print ''Bill validation message received: 810041'' w)))"
proof (intro conjI)
  have v0: "get_value_from_bill_type 65 = ''20 ngh'' @ [CHR 0xEC] @ ''n''"
    by (simp add: get_value_from_bill_type_def value_map_def nghin_def)
  show "classify [0x81, 0x00, 0x41] = Inr (Escrow 0x41)"
    by (simp add: classify_def match_response_def strip_idle_def index_def)
  show "index [0x81, 0x00, 0x41] 2 = Inr 0x41"
    by (simp add: index_def)
  show "get_value_from_bill_type (uint (0x41 :: byte)) = ''20 ngh'' @ [CHR 0xEC] @ ''n''"
    using v0 by simp
  show "get_value_from_bill_type 0xFF = ''Unknown''"
    by (simp add: get_value_unmapped)
  show "get_value_from_bill_type b = ''Unknown''"
    using assms by (rule get_value_unmapped)
  have s: "str_byte (0x41 :: byte) = ''65''"
    by (simp add: str_byte_def dec_digit_def)
  have h: "hex [0x81, 0x00, 0x41] = ''810041''"
    by (simp add: hex_def hex_byte_def hex_digit_def)
  show "process_response [0x81, 0x00, 0x41] w =
             (None, send_command [0x02]
                (print (''Bill type: 65, Value: 20 ngh'' @ [CHR 0xEC] @ ''n'')
                   (print ''Bill validation message received: 810041'' w)))"
    using v0 by (simp add: process_response_unfold dispatch_def index_def s h)
qed

theorem escrow_extraction_witness:
  "(255 :: int) \<notin> {64, 65, 66, 67, 68, 69}
   \<and> classify [0x81, 0x00, 0x41] = Inr (Escrow 0x41)
   \<and> get_value_from_bill_type 65 = ''20 ngh'' @ [CHR 0xEC] @ ''n''
   \<and> get_value_from_bill_type 255 = ''Unknown''"
proof -
  have h: "(255 :: int) \<notin> {64, 65, 66, 67, 68, 69}" by simp
  note t = escrow_extraction [OF h, of world0]
  from t have a: "classify [0x81, 0x00, 0x41] = Inr (Escrow 0x41)"
    by (elim conjE) assumption
  from t have b: "get_value_from_bill_type (uint (0x41 :: byte)) = ''20 ngh'' @ [CHR 0xEC] @ ''n''"
    by (elim conjE) assumption
  from t have c: "get_value_from_bill_type 255 = ''Unknown''"
    by (elim conjE) assumption
  have u: "uint (0x41 :: byte) = 65" by simp
  show ?thesis using h a b c unfolding u by simp
qed

text \<open>
  Claim C6. A response that has passed the removal of the idle byte is an error event
  exactly when its first byte is 0x20, 0x21, 0x22 or 0x28, and \<open>process_response\<close> then
  hands it to the recovery procedure. A first byte among the other codes of the error
  table (0x23, 0x24, 0x25, 0x27, 0x29, 0x2A) gives Unknown: one diagnostic line is
  printed, the recovery procedure is not run and nothing is written to the port.
  For every response whatever, on a working port, \<open>process_response\<close> is the run of the
  recovery procedure on the response without its idle byte exactly when that first byte
  is one of the four, and Enable (0x3E) is among the commands it writes exactly then.
\<close>

theorem error_dispatch_coverage:
  assumes "e \<in> {0x20, 0x21, 0x22, 0x28}"
    and "d \<in> {0x23, 0x24, 0x25, 0x27, 0x29, 0x2A}"
    and "fault v = None"
  shows "(match_response r = Inr (ErrorEvent c))
           = (r \<noteq> [] \<and> hd r = c \<and> (c = 0x20 \<or> c = 0x21 \<or> c = 0x22 \<or> c = 0x28))
         \<and> classify (e # rest) = Inr (ErrorEvent e)
         \<and> process_response (e # rest) w = (None, handle_error_response (e # rest) w)
         \<and> classify (d # rest) = Inr (Unknown (d # rest))
         \<and> process_response (d # rest) w =
             (None, print (''Unknown response: '' @ hex (d # rest)) w)
         \<and> written (snd (process_response (d # rest) w)) = written w
         \<and> (\<exists>k. classify raw = Inr (ErrorEvent k))
             = (raw \<noteq> [0x00] \<and> strip_idle raw \<noteq> []
                \<and> hd (strip_idle raw) \<in> {0x20, 0x21, 0x22, 0x28})
         \<and> (process_response raw v =
              (None, handle_error_response (strip_idle raw)
                       (if startswith raw [0x00]
                        then print ''Detected leading 00 byte, removing it.'' v else v)))
             = (raw \<noteq> [0x00] \<and> strip_idle raw \<noteq> []
                \<and> hd (strip_idle raw) \<in> {0x20, 0x21, 0x22, 0x28})
         \<and> ([0x3E] \<in> set (emitted v (snd (process_response raw v))))
             = (raw \<noteq> [0x00] \<and> strip_idle raw \<noteq> []
                \<and> hd (strip_idle raw) \<in> {0x20, 0x21, 0x22, 0x28})"
proof -
  from assms(1) have e0: "e \<noteq> 0x00" by auto
  from assms(2) have d0: "d \<noteq> 0x00" by auto
  have a: "classify (e # rest) = Inr (ErrorEvent e)"
    using classify_no_idle [OF e0, of rest] match_error_code [OF assms(1), of rest] by simp
  have b: "process_response (e # rest) w = (None, handle_error_response (e # rest) w)"
    using process_response_no_idle [OF e0, of rest w] dispatch_error_code [OF assms(1), of rest w]
    by simp
  have c: "classify (d # rest) = Inr (Unknown (d # rest))"
    using classify_no_idle [OF d0, of rest] match_other_code [OF assms(2), of rest] by simp
  have p: "process_response (d # rest) w =
             (None, print (''Unknown response: '' @ hex (d # rest)) w)"
    using process_response_no_idle [OF d0, of rest w] dispatch_other_code [OF assms(2), of rest w]
    by simp
  have q: "written (snd (process_response (d # rest) w)) = written w"
    by (simp add: p)
  from match_error_iff [of r c] a b c p q classify_error_ex_iff [of raw]
    process_response_recovery_iff [OF assms(3), of raw]
    process_response_enable_iff [OF assms(3), of raw]
  show ?thesis by (intro conjI)
qed

theorem error_dispatch_coverage_witness:
  "(0x22 :: byte) \<in> {0x20, 0x21, 0x22, 0x28}
   \<and> (0x2A :: byte) \<in> {0x23, 0x24, 0x25, 0x27, 0x29, 0x2A}
   \<and> fault world0 = None
   \<and> classify [0x22] = Inr (ErrorEvent 0x22)
   \<and> classify [0x2A] = Inr (Unknown [0x2A])
   \<and> written (snd (process_response [0x2A] world0)) = []
   \<and> [0x3E] \<in> set (emitted world0 (snd (process_response [0x00, 0x22] world0)))
   \<and> [0x3E] \<notin> set (emitted world0 (snd (process_response [0x26] world0)))
   \<and> process_response [0x26] world0 \<noteq> (None, handle_error_response [0x26] world0)"
proof -
  have h1: "(0x22 :: byte) \<in> {0x20, 0x21, 0x22, 0x28}" by simp
  have h2: "(0x2A :: byte) \<in> {0x23, 0x24, 0x25, 0x27, 0x29, 0x2A}" by simp
  have h3: "fault world0 = None" by (simp add: world0_def)
  note t = error_dispatch_coverage [OF h1 h2 h3, of "[]" 0 "[]" world0 "[0x00, 0x22]"]
  note u = error_dispatch_coverage [OF h1 h2 h3, of "[]" 0 "[]" world0 "[0x26]"]
  from t have a: "classify [0x22] = Inr (ErrorEvent 0x22)"
    by (elim conjE) assumption
  from t have b: "classify [0x2A] = Inr (Unknown [0x2A])"
    by (elim conjE) assumption
  from t have c: "written (snd (process_response [0x2A] world0)) = written world0"
    by (elim conjE) assumption
  have e: "written world0 = []" by (simp add: world0_def)
  from c have c': "written (snd (process_response [0x2A] world0)) = []" unfolding e .
  have s1: "strip_idle [0x00, 0x22] = [0x22]" by (simp add: strip_idle_def)
  have s2: "strip_idle [0x26] = [0x26]" by (simp add: strip_idle_def)
  from t have "([0x3E] \<in> set (emitted world0 (snd (process_response [0x00, 0x22] world0))))
      = ([0x00, 0x22] \<noteq> [0x00 :: byte] \<and> strip_idle [0x00, 0x22] \<noteq> []
         \<and> hd (strip_idle [0x00, 0x22]) \<in> {0x20, 0x21, 0x22, 0x28})"
    by (elim conjE) assumption
  then have m1: "[0x3E] \<in> set (emitted world0 (snd (process_response [0x00, 0x22] world0)))"
    unfolding s1 by simp
  from u have "([0x3E] \<in> set (emitted world0 (snd (process_response [0x26] world0))))
      = ([0x26] \<noteq> [0x00 :: byte] \<and> strip_idle [0x26] \<noteq> []
         \<and> hd (strip_idle [0x26]) \<in> {0x20, 0x21, 0x22, 0x28})"
    by (elim conjE) assumption
  then have m2: "[0x3E] \<notin> set (emitted world0 (snd (process_response [0x26] world0)))"
    unfolding s2 by simp
  from u have "(process_response [0x26] world0 =
              (None, handle_error_response (strip_idle [0x26])
                       (if startswith [0x26] [0x00]
                        then print ''Detected leading 00 byte, removing it.'' world0
                        else world0)))
             = ([0x26] \<noteq> [0x00 :: byte] \<and> strip_idle [0x26] \<noteq> []
                \<and> hd (strip_idle [0x26]) \<in> {0x20, 0x21, 0x22, 0x28})"
    by (elim conjE) assumption
  then have m3: "process_response [0x26] world0 \<noteq> (None, handle_error_response [0x26] world0)"
    unfolding s2 by simp
  from h1 h2 h3 a b c' m1 m2 m3 show ?thesis by (intro conjI)
qed

text \<open>
  Claim C7. The error table gives its own description, never the fallback, for each
  of the ten codes 0x20, 0x21, 0x22, 0x23, 0x24, 0x25, 0x27, 0x28, 0x29 and 0x2A. For
  every other byte the lookup returns \<open>Unknown Error\<close>, the reset test is false, and
  on a working port the recovery procedure writes Enable alone, with no Reset.
\<close>

theorem error_table_total:
  assumes "c \<in> {0x20, 0x21, 0x22, 0x23, 0x24, 0x25, 0x27, 0x28, 0x29, 0x2A}"
    and "d \<notin> {0x20, 0x21, 0x22, 0x23, 0x24, 0x25, 0x27, 0x28, 0x29, 0x2A}"
    and "fault w = None"
  shows "error_message (c # rest) \<noteq> ''Unknown Error''
         \<and> error_message (d # rest) = ''Unknown Error''
         \<and> \<not> requires_reset (d # rest)
         \<and> written (handle_error_response (d # rest) w) = written w @ [[0x3E]]"
proof -
  have r: "\<not> requires_reset (d # rest)"
    using assms(2) by (simp add: requires_reset_Cons)
  have "written (handle_error_response (d # rest) w) = written w @ [[0x3E]]"
    using r by (simp add: written_handle_error_response [OF assms(3)])
  with r error_message_known [OF assms(1), of rest] error_message_unknown [OF assms(2), of rest]
  show ?thesis by (intro conjI)
qed

theorem error_table_total_witness:
  "(0x2A :: byte) \<in> {0x20, 0x21, 0x22, 0x23, 0x24, 0x25, 0x27, 0x28, 0x29, 0x2A}
   \<and> (0x26 :: byte) \<notin> {0x20, 0x21, 0x22, 0x23, 0x24, 0x25, 0x27, 0x28, 0x29, 0x2A}
   \<and> fault world0 = None
   \<and> error_message [0x2A] \<noteq> ''Unknown Error''
   \<and> error_message [0x26] = ''Unknown Error''
   \<and> written (handle_error_response [0x26] world0) = [[0x3E]]"
proof -
  have h1: "(0x2A :: byte) \<in> {0x20, 0x21, 0x22, 0x23, 0x24, 0x25, 0x27, 0x28, 0x29, 0x2A}"
    by simp
  have h2: "(0x26 :: byte) \<notin> {0x20, 0x21, 0x22, 0x23, 0x24, 0x25, 0x27, 0x28, 0x29, 0x2A}"
    by simp
  have h3: "fault world0 = None" by (simp add: world0_def)
  note t = error_table_total [OF h1 h2 h3, of "[]"]
  from t have a: "error_message [0x2A] \<noteq> ''Unknown Error''"
    by (elim conjE) assumption
  from t have b: "error_message [0x26] = ''Unknown Error''"
    by (elim conjE) assumption
  from t have c: "written (handle_error_response [0x26] world0) = written world0 @ [[0x3E]]"
    by (elim conjE) assumption
  have e: "written world0 = []" by (simp add: world0_def)
  from c have c': "written (handle_error_response [0x26] world0) = [[0x3E]]"
    unfolding e by simp
  from h1 h2 h3 a b c' show ?thesis by (intro conjI)
qed

text \<open>
  Claim C8. When the port is working and nothing is waiting to be read, a poll cycle
  writes Poll, prints the line for it and does nothing else. A response that is empty
  once the idle byte has been removed (it is then the empty response) is Unknown, not
  Idle: \<open>process_response\<close> prints that the response is empty or invalid and writes
  nothing.
\<close>

theorem empty_input_noop:
  assumes "fault w = None" and "in_buf w = []"
    and "r \<noteq> [0x00]" and "strip_idle r = []"
  shows "check_status w = print ''Command sent: 0c'' (w\<lparr>written := written w @ [[0x0C]]\<rparr>)
         \<and> written (check_status w) = written w @ [[0x0C]]
         \<and> classify r = Inr (Unknown [])
         \<and> classify r \<noteq> Inr Idle
         \<and> process_response r w = (None, print ''Received empty or invalid response.'' w)
         \<and> written (snd (process_response r w)) = written w"
proof -
  have r: "r = []" using assms(3,4) by (rule strip_idle_empty)
  have c: "check_status w = print ''Command sent: 0c'' (w\<lparr>written := written w @ [[0x0C]]\<rparr>)"
    using assms(1) by (simp add: check_status_quiet [OF assms(1,2)] send_command_def hex_poll)
  have d: "written (check_status w) = written w @ [[0x0C]]"
    by (simp add: c)
  have p: "process_response r w = (None, print ''Received empty or invalid response.'' w)"
    unfolding r by (rule process_response_empty)
  have q: "written (snd (process_response r w)) = written w"
    by (simp add: p)
  have k: "classify r = Inr (Unknown [])"
    unfolding r by (rule classify_empty)
  have k': "classify r \<noteq> Inr Idle"
    by (simp add: k)
  from c d k k' p q show ?thesis by (intro conjI)
qed

theorem empty_input_noop_witness:
  "fault world0 = None \<and> in_buf world0 = [] \<and> [] \<noteq> [0x00 :: byte]
   \<and> strip_idle [] = []
   \<and> written (check_status world0) = [[0x0C]]
   \<and> classify [] = Inr (Unknown [])
   \<and> written (snd (process_response [] world0)) = []"
proof -
  have h1: "fault world0 = None" by (simp add: world0_def)
  have h2: "in_buf world0 = []" by (simp add: world0_def)
  have h3: "[] \<noteq> [0x00 :: byte]" by simp
  have h4: "strip_idle [] = []" by (simp add: strip_idle_def)
  note t = empty_input_noop [OF h1 h2 h3 h4]
  have e: "written world0 = []" by (simp add: world0_def)
  from t have a: "written (check_status world0) = written world0 @ [[0x0C]]"
    by (elim conjE) assumption
  from t have b: "classify [] = Inr (Unknown [])"
    by (elim conjE) assumption
  from t have c: "written (snd (process_response [] world0)) = written world0"
    by (elim conjE) assumption
  from a have a': "written (check_status world0) = [[0x0C]]" unfolding e by simp
  from c have c': "written (snd (process_response [] world0)) = []" unfolding e .
  from h1 h2 h3 h4 a' b c' show ?thesis by (intro conjI)
qed

text \<open>
  Claim C9. The response \<open>00 00\<close> is not Idle: one leading 0x00 is removed, the single
  0x00 left matches no pattern, the outcome is Unknown and nothing is written. A
  response is Idle exactly when it is the one byte 0x00.
\<close>

theorem double_idle_unknown:
  "classify [0x00, 0x00] = Inr (Unknown [0x00])
   \<and> process_response [0x00, 0x00] w =
       (None, print ''Unknown response: 00''
                (print ''Detected leading 00 byte, removing it.'' w))
   \<and> written (snd (process_response [0x00, 0x00] w)) = written w
   \<and> (classify r = Inr Idle) = (r = [0x00])"
proof -
  have a: "classify [0x00, 0x00] = Inr (Unknown [0x00])"
    by (simp add: classify_def strip_idle_def match_response_def)
  have h: "hex [0x00] = ''00''"
    by (simp add: hex_def hex_byte_def hex_digit_def)
  have p: "process_response [0x00, 0x00] w =
       (None, print ''Unknown response: 00''
                (print ''Detected leading 00 byte, removing it.'' w))"
    by (simp add: process_response_unfold dispatch_def h)
  have q: "written (snd (process_response [0x00, 0x00] w)) = written w"
    by (simp add: p)
  from a p q classify_idle_iff [of r] show ?thesis by (intro conjI)
qed

text \<open>
  Claim C10. On a working port every response of at least three bytes whose first byte
  is 0x81 is accepted: \<open>process_response\<close> prints the two bill lines and writes
  Acknowledge (0x02), whatever the bill-type code at index 2 is and whether or not the
  denomination table knows it. The same holds when one idle byte precedes the frame.
\<close>

theorem escrow_accept_unconditional:
  assumes "fault w = None" and "3 \<le> length r" and "hd r = 0x81"
  shows "classify r = Inr (Escrow (r ! 2))
         \<and> process_response r w =
             (None, send_command [0x02]
                (print (''Bill type: '' @ str_byte (r ! 2) @ '', Value: ''
                          @ get_value_from_bill_type (uint (r ! 2)))
                   (print (''Bill validation message received: '' @ hex r) w)))
         \<and> written (snd (process_response r w)) = written w @ [[0x02]]
         \<and> written (snd (process_response (0x00 # r) w)) = written w @ [[0x02]]"
proof -
  from assms(2,3) obtain b c rest where r: "r = 0x81 # b # c # rest"
    by (rule escrow_shape)
  have n: "(0x81 :: byte) \<noteq> 0x00" by simp
  have k: "classify r = Inr (Escrow (r ! 2))"
    unfolding r using classify_no_idle [OF n, of "b # c # rest"] match_escrow [of b c rest]
    by simp
  have p: "process_response r w =
             (None, send_command [0x02]
                (print (''Bill type: '' @ str_byte (r ! 2) @ '', Value: ''
                          @ get_value_from_bill_type (uint (r ! 2)))
                   (print (''Bill validation message received: '' @ hex r) w)))"
    unfolding r
    using process_response_no_idle [OF n, of "b # c # rest" w] dispatch_escrow [of b c rest w]
    by simp
  have q: "written (snd (process_response r w)) = written w @ [[0x02]]"
    using process_response_written [OF assms(1), of r] k by simp
  have "classify (0x00 # r) = match_response r"
    unfolding r by (simp add: classify_def strip_idle_def)
  then have "classify (0x00 # r) = Inr (Escrow c)"
    unfolding r by (simp only: match_escrow)
  then have s: "written (snd (process_response (0x00 # r) w)) = written w @ [[0x02]]"
    using process_response_written [OF assms(1), of "0x00 # r"] by simp
  from k p q s show ?thesis by (intro conjI)
qed

theorem escrow_accept_unconditional_witness:
  "fault world0 = None \<and> 3 \<le> length [0x81, 0x00, 0xFF :: byte]
   \<and> hd [0x81, 0x00, 0xFF :: byte] = 0x81
   \<and> get_value_from_bill_type (uint (0xFF :: byte)) = ''Unknown''
   \<and> classify [0x81, 0x00, 0xFF] = Inr (Escrow 0xFF)
   \<and> written (snd (process_response [0x81, 0x00, 0xFF] world0)) = [[0x02]]"
proof -
  have h1: "fault world0 = None" by (simp add: world0_def)
  have h2: "3 \<le> length [0x81, 0x00, 0xFF :: byte]" by simp
  have h3: "hd [0x81, 0x00, 0xFF :: byte] = 0x81" by simp
  note t = escrow_accept_unconditional [OF h1 h2 h3]
  have e: "written world0 = []" by (simp add: world0_def)
  have i: "[0x81, 0x00, 0xFF :: byte] ! 2 = 0xFF" by simp
  from t have a: "classify [0x81, 0x00, 0xFF] = Inr (Escrow ([0x81, 0x00, 0xFF] ! 2))"
    by (elim conjE) assumption
  from t have b: "written (snd (process_response [0x81, 0x00, 0xFF] world0))
                    = written world0 @ [[0x02]]"
    by (elim conjE) assumption
  from a have a': "classify [0x81, 0x00, 0xFF] = Inr (Escrow 0xFF)" unfolding i .
  from b have b': "written (snd (process_response [0x81, 0x00, 0xFF] world0)) = [[0x02]]"
    unfolding e by simp
  have u: "get_value_from_bill_type (uint (0xFF :: byte)) = ''Unknown''"
    by (simp add: get_value_unmapped)
  from h1 h2 h3 u a' b' show ?thesis by (intro conjI)
qed

end
